theory Spec2Isabelle
  imports Main "HOL-Library.Word"
begin

section \<open>JavaScript strings\<close>

text \<open>
  A JavaScript string is a sequence of UTF-16 code units; \<open>length\<close> counts code units.
  String literals of the source are ASCII and are written through \<open>lit\<close>.
\<close>

type_synonym code_unit = "16 word"
type_synonym jsstring = "code_unit list"

definition lit :: "string \<Rightarrow> jsstring" where
  "lit s = map of_char s"

text \<open>
  ECMAScript \<open>WhiteSpace\<close> and \<open>LineTerminator\<close> code points: the set that
  \<open>String.prototype.trim\<close> strips and that \<open>\s\<close> matches in a regular expression.
\<close>

definition isWhiteSpace :: "code_unit \<Rightarrow> bool" where
  "isWhiteSpace c \<longleftrightarrow>
     c = 0x0009 \<or> c = 0x000B \<or> c = 0x000C \<or> c = 0x0020 \<or> c = 0x00A0 \<or> c = 0xFEFF \<or>
     c = 0x1680 \<or> (0x2000 \<le> c \<and> c \<le> 0x200A) \<or> c = 0x202F \<or> c = 0x205F \<or> c = 0x3000"

definition isLineTerminator :: "code_unit \<Rightarrow> bool" where
  "isLineTerminator c \<longleftrightarrow> c = 0x000A \<or> c = 0x000D \<or> c = 0x2028 \<or> c = 0x2029"

definition isSpace :: "code_unit \<Rightarrow> bool" where
  "isSpace c \<longleftrightarrow> isWhiteSpace c \<or> isLineTerminator c"

text \<open>\<open>String.prototype.trim\<close>: strips leading and trailing white space.\<close>

definition trim :: "jsstring \<Rightarrow> jsstring" where
  "trim s = rev (dropWhile isSpace (rev (dropWhile isSpace s)))"

text \<open>JavaScript truthiness of a value of type \<open>string | undefined\<close>.\<close>

fun truthy :: "jsstring option \<Rightarrow> bool" where
  "truthy None = False"
| "truthy (Some s) = (s \<noteq> [])"

section \<open>Regular expressions\<close>

text \<open>
  The fragment of the regular-expression language that \<open>emailRegex\<close> uses: the
  assertions \<open>^\<close> and \<open>$\<close> (no multiline flag), a literal character, and a negated
  character class under the greedy quantifier \<open>+\<close>.
\<close>

datatype class_atom = Escape_s | ClassChar code_unit

fun class_atom_matches :: "class_atom \<Rightarrow> code_unit \<Rightarrow> bool" where
  "class_atom_matches Escape_s c = isSpace c"
| "class_atom_matches (ClassChar d) c = (c = d)"

definition in_class :: "class_atom list \<Rightarrow> code_unit \<Rightarrow> bool" where
  "in_class cs c = list_ex (\<lambda>a. class_atom_matches a c) cs"

datatype rx_item = Bol | Eol | Chr code_unit | PlusNeg "class_atom list"

text \<open>
  Backtracking matcher: \<open>rx_match p b s\<close> tries to match the pattern \<open>p\<close> against a
  prefix of the remaining input \<open>s\<close>; \<open>b\<close> tells whether the current position is the
  start of the input. The greedy \<open>+\<close> first tries to take one more character and
  falls back to the rest of the pattern.
\<close>

fun rx_match :: "rx_item list \<Rightarrow> bool \<Rightarrow> jsstring \<Rightarrow> bool" where
  "rx_match [] b s = True"
| "rx_match (Bol # p) b s = (b \<and> rx_match p b s)"
| "rx_match (Eol # p) b s = (s = [] \<and> rx_match p b s)"
| "rx_match (Chr c # p) b [] = False"
| "rx_match (Chr c # p) b (x # xs) = (x = c \<and> rx_match p False xs)"
| "rx_match (PlusNeg cs # p) b [] = False"
| "rx_match (PlusNeg cs # p) b (x # xs) =
     (\<not> in_class cs x \<and> (rx_match (PlusNeg cs # p) False xs \<or> rx_match p False xs))"

text \<open>
  \<open>RegExp.prototype.test\<close> without the global or sticky flag: the matcher is tried at
  every start index from 0 to the length of the input.
\<close>

fun rx_exec :: "rx_item list \<Rightarrow> bool \<Rightarrow> jsstring \<Rightarrow> bool" where
  "rx_exec p b [] = rx_match p b []"
| "rx_exec p b (x # xs) = (rx_match p b (x # xs) \<or> rx_exec p False xs)"

definition rx_test :: "rx_item list \<Rightarrow> jsstring \<Rightarrow> bool" where
  "rx_test p s = rx_exec p True s"

section \<open>Contact form: validation\<close>

text \<open>\<open>/^[^\s@]+@[^\s@]+\.[^\s@]+$/\<close>\<close>

definition emailRegex :: "rx_item list" where
  "emailRegex =
     [Bol, PlusNeg [Escape_s, ClassChar 0x40], Chr 0x40,
      PlusNeg [Escape_s, ClassChar 0x40], Chr 0x2E,
      PlusNeg [Escape_s, ClassChar 0x40], Eol]"

definition isValidEmail :: "jsstring \<Rightarrow> bool" where
  "isValidEmail email = rx_test emailRegex email"

text \<open>
  \<open>validateField\<close>: the \<open>switch\<close> on the field name, with \<open>undefined\<close> as \<open>None\<close>.
  The email pattern is tested on the value as typed, not on the trimmed value.
\<close>

definition validateField :: "jsstring \<Rightarrow> jsstring \<Rightarrow> jsstring option" where
  "validateField name value =
     (if name = lit ''name'' then
        (if trim value = [] then Some (lit ''Name is required'')
         else if length (trim value) < 2 then Some (lit ''Name must be at least 2 characters'')
         else None)
      else if name = lit ''email'' then
        (if trim value = [] then Some (lit ''Email is required'')
         else if \<not> isValidEmail value then Some (lit ''Please enter a valid email address'')
         else None)
      else if name = lit ''message'' then
        (if trim value = [] then Some (lit ''Message is required'')
         else if length (trim value) < 10 then Some (lit ''Message must be at least 10 characters'')
         else None)
      else None)"

section \<open>Contact form: component state\<close>

text \<open>
  The form has exactly three inputs, named \<open>name\<close>, \<open>email\<close> and \<open>message\<close>; the
  event handlers are attached to these inputs only, so the \<open>name\<close> of an event target
  is one of the three keys of \<open>FormData\<close>.
\<close>

datatype field = Name | Email | Message

fun field_name :: "field \<Rightarrow> jsstring" where
  "field_name Name = lit ''name''"
| "field_name Email = lit ''email''"
| "field_name Message = lit ''message''"

text \<open>
  \<open>FormData\<close> has all three keys at all times. \<open>FormErrors\<close> and \<open>touched\<close> are objects
  with optional keys: \<open>None\<close> is an absent key, and a key of \<open>FormErrors\<close> may be present
  and hold \<open>undefined\<close> (\<open>Some None\<close>), which is what \<open>handleChange\<close> and \<open>handleBlur\<close>
  store for a valid value.
\<close>

type_synonym FormData = "field \<Rightarrow> jsstring"
type_synonym FormErrors = "field \<rightharpoonup> jsstring option"
type_synonym Touched = "field \<rightharpoonup> bool"

datatype FormStatus = Idle | Submitting | Success | Error

text \<open>
  Timers registered with \<open>setTimeout\<close>, as the absolute time in milliseconds at which
  they are due and the callback to run. A callback is either the \<open>resolve\<close> or \<open>reject\<close>
  function of the promise that \<open>handleSubmit\<close> awaits, or \<open>() => setStatus('idle')\<close>.
\<close>

datatype outcome = Fulfilled | Rejected

datatype callback = Settle outcome | SetStatusIdle

record contact =
  formData :: FormData
  errors :: FormErrors
  touched :: Touched
  status :: FormStatus
  now :: nat
  timers :: "(nat \<times> callback) list"

definition initialFormData :: FormData where
  "initialFormData = (\<lambda>_. [])"

definition initial :: contact where
  "initial = \<lparr>formData = initialFormData, errors = Map.empty, touched = Map.empty,
     status = Idle, now = 0, timers = []\<rparr>"

text \<open>\<open>Object.keys\<close> of an object whose keys are among the three field names.\<close>

definition object_keys :: "(field \<rightharpoonup> 'a) \<Rightarrow> field list" where
  "object_keys m = filter (\<lambda>k. m k \<noteq> None) [Name, Email, Message]"

text \<open>Reading a property of \<open>errors\<close>: an absent key reads as \<open>undefined\<close>.\<close>

definition error_of :: "FormErrors \<Rightarrow> field \<Rightarrow> jsstring option" where
  "error_of e f = (case e f of None \<Rightarrow> None | Some v \<Rightarrow> v)"

section \<open>Contact form: handlers\<close>

text \<open>The \<open>forEach\<close> of \<open>validateForm\<close> over the keys of \<open>formData\<close>.\<close>

fun validateForm_each :: "FormData \<Rightarrow> field list \<Rightarrow> FormErrors \<Rightarrow> FormErrors" where
  "validateForm_each fd [] newErrors = newErrors"
| "validateForm_each fd (key # keys) newErrors =
     (let error = validateField (field_name key) (fd key)
      in validateForm_each fd keys
           (if truthy error then newErrors(key \<mapsto> error) else newErrors))"

definition validateForm :: "contact \<Rightarrow> bool \<times> contact" where
  "validateForm s =
     (let newErrors = validateForm_each (formData s) [Name, Email, Message] Map.empty
      in (length (object_keys newErrors) = 0, s\<lparr>errors := newErrors\<rparr>))"

definition handleChange :: "field \<Rightarrow> jsstring \<Rightarrow> contact \<Rightarrow> contact" where
  "handleChange name value s =
     (let s' = s\<lparr>formData := (formData s)(name := value)\<rparr>
      in if touched s name = Some True
         then s'\<lparr>errors := (errors s')(name \<mapsto> validateField (field_name name) value)\<rparr>
         else s')"

definition handleBlur :: "field \<Rightarrow> jsstring \<Rightarrow> contact \<Rightarrow> contact" where
  "handleBlur name value s =
     (let s' = s\<lparr>touched := (touched s)(name \<mapsto> True)\<rparr>
      in s'\<lparr>errors := (errors s')(name \<mapsto> validateField (field_name name) value)\<rparr>)"

text \<open>
  \<open>handleSubmit\<close> up to its \<open>await\<close>. The awaited promise is
  \<open>new Promise((resolve) => setTimeout(resolve, 1500))\<close>: its executor registers
  \<open>resolve\<close> as a timer callback due in 1500 ms.
\<close>

definition handleSubmit :: "contact \<Rightarrow> contact" where
  "handleSubmit s =
     (let s1 = s\<lparr>touched := [Name \<mapsto> True, Email \<mapsto> True, Message \<mapsto> True]\<rparr>;
          (valid, s2) = validateForm s1
      in if \<not> valid then s2
         else s2\<lparr>status := Submitting,
                 timers := timers s2 @ [(now s2 + 1500, Settle Fulfilled)]\<rparr>)"

text \<open>
  The rest of \<open>handleSubmit\<close>, run when the awaited promise settles: the remainder of
  the \<open>try\<close> block when it is fulfilled, the \<open>catch\<close> block when it is rejected.
\<close>

fun handleSubmit_resume :: "outcome \<Rightarrow> contact \<Rightarrow> contact" where
  "handleSubmit_resume Fulfilled s =
     s\<lparr>status := Success, formData := initialFormData, touched := Map.empty,
       errors := Map.empty, timers := timers s @ [(now s + 5000, SetStatusIdle)]\<rparr>"
| "handleSubmit_resume Rejected s =
     s\<lparr>status := Error, timers := timers s @ [(now s + 5000, SetStatusIdle)]\<rparr>"

fun run_callback :: "callback \<Rightarrow> contact \<Rightarrow> contact" where
  "run_callback (Settle r) s = handleSubmit_resume r s"
| "run_callback SetStatusIdle s = s\<lparr>status := Idle\<rparr>"

section \<open>Contact form: rendering and events\<close>

text \<open>
  What the component renders from its state: the \<open>disabled\<close> attribute of the submit
  button and of the inputs, and the error text under each input
  (\<open>errors.name && touched.name && <span>{errors.name}</span>\<close>).
\<close>

definition submit_disabled :: "contact \<Rightarrow> bool" where
  "submit_disabled s = (status s = Submitting)"

definition input_disabled :: "contact \<Rightarrow> bool" where
  "input_disabled s = (status s = Submitting)"

definition rendered_error :: "contact \<Rightarrow> field \<Rightarrow> jsstring option" where
  "rendered_error s f =
     (if truthy (error_of (errors s) f) \<and> touched s f = Some True
      then error_of (errors s) f else None)"

text \<open>The timer that fires next: the earliest one, the first registered among equals.\<close>

fun earliest :: "(nat \<times> callback) list \<Rightarrow> (nat \<times> callback) option" where
  "earliest [] = None"
| "earliest (t # ts) =
     (case earliest ts of
        None \<Rightarrow> Some t
      | Some u \<Rightarrow> if fst t \<le> fst u then Some t else Some u)"

text \<open>
  Events of the browser's event loop. A disabled input takes no change and a disabled
  submit button submits nothing. Time advances only up to the next timer that is due,
  and \<open>Fire\<close> runs the timer that is due.
\<close>

datatype event = Change field jsstring | Blur field jsstring | ClickSubmit | Advance nat | Fire

fun dispatch :: "event \<Rightarrow> contact \<Rightarrow> contact" where
  "dispatch (Change f v) s = (if input_disabled s then s else handleChange f v s)"
| "dispatch (Blur f v) s = handleBlur f v s"
| "dispatch ClickSubmit s = (if submit_disabled s then s else handleSubmit s)"
| "dispatch (Advance d) s =
     (if list_all (\<lambda>t. now s + d \<le> fst t) (timers s) then s\<lparr>now := now s + d\<rparr> else s)"
| "dispatch Fire s =
     (case earliest (timers s) of
        None \<Rightarrow> s
      | Some t \<Rightarrow>
          if fst t \<le> now s
          then run_callback (snd t) (s\<lparr>timers := remove1 t (timers s)\<rparr>)
          else s)"

fun run :: "event list \<Rightarrow> contact \<Rightarrow> contact" where
  "run [] s = s"
| "run (e # es) s = run es (dispatch e s)"

text \<open>The submissions in flight: the pending settlements of awaited promises.\<close>

fun is_send :: "nat \<times> callback \<Rightarrow> bool" where
  "is_send (t, Settle r) = True"
| "is_send (t, SetStatusIdle) = False"

definition in_flight :: "contact \<Rightarrow> nat" where
  "in_flight s = length (filter is_send (timers s))"

section \<open>Theme toggle\<close>

text \<open>
  The state of the \<open>ThemeToggle\<close> component together with what it reads and writes
  outside itself: the \<open>theme\<close> item of \<open>localStorage\<close>, the \<open>data-theme\<close> attribute
  of the document element and the \<open>prefers-color-scheme: dark\<close> media query.
  \<open>effects\<close> records the calls made on these, in order.
\<close>

datatype effect = GetItem | SetItem jsstring | QueryMatches | SetAttribute jsstring

record theme_toggle =
  theme :: jsstring
  mounted :: bool
  storage :: "jsstring option"
  data_theme :: "jsstring option"
  prefersDark :: bool
  effects :: "effect list"

text \<open>\<open>setTheme(t); document.documentElement.setAttribute('data-theme', t)\<close>\<close>

definition setTheme_setAttribute :: "jsstring \<Rightarrow> theme_toggle \<Rightarrow> theme_toggle" where
  "setTheme_setAttribute t s =
     s\<lparr>theme := t, data_theme := Some t, effects := effects s @ [SetAttribute t]\<rparr>"

definition systemTheme :: "bool \<Rightarrow> jsstring" where
  "systemTheme dark = (if dark then lit ''dark'' else lit ''light'')"

text \<open>The first effect of the component, run once after mounting.\<close>

definition initialize :: "theme_toggle \<Rightarrow> theme_toggle" where
  "initialize s =
     (let s1 = s\<lparr>mounted := True\<rparr>;
          savedTheme = storage s1;
          s2 = s1\<lparr>effects := effects s1 @ [GetItem]\<rparr>
      in case savedTheme of
           Some t \<Rightarrow>
             if t \<noteq> [] then setTheme_setAttribute t s2
             else setTheme_setAttribute (systemTheme (prefersDark s2))
                    (s2\<lparr>effects := effects s2 @ [QueryMatches]\<rparr>)
         | None \<Rightarrow>
             setTheme_setAttribute (systemTheme (prefersDark s2))
               (s2\<lparr>effects := effects s2 @ [QueryMatches]\<rparr>))"

text \<open>The listener for changes of the media query; \<open>matches\<close> is \<open>e.matches\<close>.\<close>

definition handleChange_media :: "bool \<Rightarrow> theme_toggle \<Rightarrow> theme_toggle" where
  "handleChange_media matches s =
     (let s1 = s\<lparr>effects := effects s @ [GetItem]\<rparr>
      in if \<not> truthy (storage s) then setTheme_setAttribute (systemTheme matches) s1 else s1)"

definition toggleTheme :: "theme_toggle \<Rightarrow> theme_toggle" where
  "toggleTheme s =
     (let newTheme = (if theme s = lit ''light'' then lit ''dark'' else lit ''light'')
      in s\<lparr>theme := newTheme, storage := Some newTheme, data_theme := Some newTheme,
           effects := effects s @ [SetItem newTheme, SetAttribute newTheme]\<rparr>)"

text \<open>
  A page load: the component starts from its initial state in a new document, the
  stored item and the environment are what they were, and the first effect runs.
\<close>

definition fresh :: "theme_toggle \<Rightarrow> theme_toggle" where
  "fresh s = s\<lparr>theme := lit ''light'', mounted := False, data_theme := None, effects := []\<rparr>"

text \<open>
  Events once the page is loaded: a click on the toggle (the button is disabled until
  the component is mounted) and a change of the environment's colour scheme.
\<close>

datatype theme_event = Toggle | EnvChange bool

fun theme_dispatch :: "theme_event \<Rightarrow> theme_toggle \<Rightarrow> theme_toggle" where
  "theme_dispatch Toggle s = (if mounted s then toggleTheme s else s)"
| "theme_dispatch (EnvChange m) s =
     (if mounted s then handleChange_media m (s\<lparr>prefersDark := m\<rparr>)
      else s\<lparr>prefersDark := m\<rparr>)"

fun theme_run :: "theme_event list \<Rightarrow> theme_toggle \<Rightarrow> theme_toggle" where
  "theme_run [] s = s"
| "theme_run (e # es) s = theme_run es (theme_dispatch e s)"

section \<open>The specification's description of the email pattern\<close>

text \<open>
  \<open>local@domain.tld\<close>: three non-empty parts without white space and without \<open>@\<close>,
  joined by one \<open>@\<close> and one dot.
\<close>

definition plain :: "jsstring \<Rightarrow> bool" where
  "plain u = list_all (\<lambda>c. \<not> isSpace c \<and> c \<noteq> 0x40) u"

definition local_at_domain_tld :: "jsstring \<Rightarrow> bool" where
  "local_at_domain_tld v \<longleftrightarrow>
     (\<exists>local domain tld.
        v = local @ lit ''@'' @ domain @ lit ''.'' @ tld \<and>
        local \<noteq> [] \<and> domain \<noteq> [] \<and> tld \<noteq> [] \<and> plain local \<and> plain domain \<and> plain tld)"

section \<open>Sample inputs and invariants\<close>

text \<open>The records of the specification's examples, and typing a record into the form.\<close>

definition example_valid :: FormData where
  "example_valid = initialFormData(Name := lit ''Jo Lee'', Email := lit ''jo@example.com'',
     Message := lit ''This is a valid message.'')"

definition example_blocked :: FormData where
  "example_blocked = initialFormData(Email := lit ''a@b.com'', Message := lit ''hello there'')"

definition fill :: "FormData \<Rightarrow> event list" where
  "fill fd = [Change Name (fd Name), Change Email (fd Email), Change Message (fd Message)]"

text \<open>
  A second submission made inside the five seconds after a first success, followed by
  a click once the reset timer of the first success has run.
\<close>

definition double_submit :: "event list" where
  "double_submit =
     fill example_valid @ [ClickSubmit, Advance 1500, Fire] @
     fill example_valid @ [Advance 4500, ClickSubmit, Advance 500, Fire, ClickSubmit]"

text \<open>No rejection is pending and the status is not \<open>error\<close>.\<close>

definition no_reject :: "contact \<Rightarrow> bool" where
  "no_reject s \<longleftrightarrow>
     status s \<noteq> Error \<and> list_all (\<lambda>t. snd t \<noteq> Settle Rejected) (timers s)"

text \<open>Every field with a recorded error is touched.\<close>

definition shown_only_touched :: "contact \<Rightarrow> bool" where
  "shown_only_touched s \<longleftrightarrow>
     (\<forall>f. truthy (error_of (errors s) f) \<longrightarrow> touched s f = Some True)"

section \<open>The email pattern\<close>

lemma lit_at: "lit ''@'' = [0x40]"
  by (simp add: lit_def)

lemma lit_dot: "lit ''.'' = [0x2E]"
  by (simp add: lit_def)

lemma in_class_email: "in_class [Escape_s, ClassChar 0x40] c \<longleftrightarrow> isSpace c \<or> c = 0x40"
  by (simp add: in_class_def)

text \<open>What the greedy quantifier accepts: a non-empty run of the class, then the rest.\<close>

lemma rx_match_PlusNeg:
  "rx_match (PlusNeg cs # p) b s \<longleftrightarrow>
     (\<exists>u v. s = u @ v \<and> u \<noteq> [] \<and> list_all (\<lambda>c. \<not> in_class cs c) u \<and> rx_match p False v)"
proof (induction s arbitrary: b)
  case Nil
  show ?case by simp
next
  case (Cons x xs)
  show ?case (is "?L = ?R")
  proof
    assume l: ?L
    then have nx: "\<not> in_class cs x" by simp
    from l have "rx_match (PlusNeg cs # p) False xs \<or> rx_match p False xs" by simp
    then show ?R
    proof
      assume "rx_match (PlusNeg cs # p) False xs"
      then obtain u v where "xs = u @ v" "list_all (\<lambda>c. \<not> in_class cs c) u" "rx_match p False v"
        using Cons.IH [of False] by blast
      with nx have "x # xs = (x # u) @ v \<and> x # u \<noteq> [] \<and>
          list_all (\<lambda>c. \<not> in_class cs c) (x # u) \<and> rx_match p False v" by simp
      then show ?R by blast
    next
      assume "rx_match p False xs"
      with nx have "x # xs = [x] @ xs \<and> [x] \<noteq> [] \<and>
          list_all (\<lambda>c. \<not> in_class cs c) [x] \<and> rx_match p False xs" by simp
      then show ?R by blast
    qed
  next
    assume ?R
    then obtain u v where uv: "x # xs = u @ v" "u \<noteq> []"
      "list_all (\<lambda>c. \<not> in_class cs c) u" "rx_match p False v" by blast
    then obtain u' where u: "u = x # u'" by (cases u) auto
    with uv have xs: "xs = u' @ v" and nx: "\<not> in_class cs x"
      and u': "list_all (\<lambda>c. \<not> in_class cs c) u'" by auto
    show ?L
    proof (cases "u' = []")
      case True
      with xs uv(4) nx show ?thesis by simp
    next
      case False
      with xs u' uv(4) have "rx_match (PlusNeg cs # p) False xs"
        using Cons.IH [of False] by blast
      with nx show ?thesis by simp
    qed
  qed
qed

lemma rx_match_Chr: "rx_match (Chr c # p) b s \<longleftrightarrow> (\<exists>v. s = c # v \<and> rx_match p False v)"
  by (cases s) auto

lemma rx_exec_Bol_False: "rx_exec (Bol # p) False s = False"
  by (induction s) auto

lemma rx_test_Bol: "rx_test (Bol # p) s = rx_match p True s"
  by (cases s) (simp_all add: rx_test_def rx_exec_Bol_False)

lemma plain_class: "list_all (\<lambda>c. \<not> in_class [Escape_s, ClassChar 0x40] c) u = plain u"
  by (simp add: plain_def in_class_email)

lemma isValidEmail_iff: "isValidEmail v \<longleftrightarrow> local_at_domain_tld v"
  unfolding isValidEmail_def emailRegex_def rx_test_Bol local_at_domain_tld_def lit_at lit_dot
  by (simp add: rx_match_PlusNeg rx_match_Chr plain_class) blast

lemma not_isSpace_dot: "\<not> isSpace 0x2E"
  by (simp add: isSpace_def isWhiteSpace_def isLineTerminator_def)

lemma not_isSpace_at: "\<not> isSpace 0x40"
  by (simp add: isSpace_def isWhiteSpace_def isLineTerminator_def)

lemma plain_no_space: "plain u \<Longrightarrow> list_all (\<lambda>c. \<not> isSpace c) u"
  by (simp add: plain_def list_all_iff)

lemma plain_count_at: "plain u \<Longrightarrow> count_list u 0x40 = 0"
  by (induction u) (simp_all add: plain_def)

lemma local_at_domain_tld_properties:
  assumes "local_at_domain_tld v"
  shows "list_all (\<lambda>c. \<not> isSpace c) v"
    and "count_list v 0x40 = 1"
    and "\<exists>before after. v = before @ lit ''@'' @ after \<and> 0x2E \<in> set after"
proof -
  from assms obtain l d t where v: "v = l @ lit ''@'' @ d @ lit ''.'' @ t"
    and p: "plain l" "plain d" "plain t"
    unfolding local_at_domain_tld_def by blast
  from p show "list_all (\<lambda>c. \<not> isSpace c) v"
    by (simp add: v lit_at lit_dot not_isSpace_dot not_isSpace_at plain_no_space)
  from p show "count_list v 0x40 = 1"
    by (simp add: v lit_at lit_dot plain_count_at)
  have "v = l @ lit ''@'' @ (d @ lit ''.'' @ t) \<and> 0x2E \<in> set (d @ lit ''.'' @ t)"
    by (simp add: v lit_dot)
  then show "\<exists>before after. v = before @ lit ''@'' @ after \<and> 0x2E \<in> set after"
    by blast
qed

section \<open>Validation of one field\<close>

lemma lit_email_ne_name: "lit ''email'' \<noteq> lit ''name''"
  by (simp add: lit_def)

lemma lit_message_ne: "lit ''message'' \<noteq> lit ''name''" "lit ''message'' \<noteq> lit ''email''"
  by (simp_all add: lit_def)

lemma validateField_name:
  "validateField (lit ''name'') v =
     (if trim v = [] then Some (lit ''Name is required'')
      else if length (trim v) < 2 then Some (lit ''Name must be at least 2 characters'')
      else None)"
  by (simp add: validateField_def)

lemma validateField_email:
  "validateField (lit ''email'') v =
     (if trim v = [] then Some (lit ''Email is required'')
      else if \<not> local_at_domain_tld v then Some (lit ''Please enter a valid email address'')
      else None)"
  by (simp add: validateField_def lit_email_ne_name isValidEmail_iff)

lemma validateField_message:
  "validateField (lit ''message'') v =
     (if trim v = [] then Some (lit ''Message is required'')
      else if length (trim v) < 10 then Some (lit ''Message must be at least 10 characters'')
      else None)"
  by (simp add: validateField_def lit_message_ne)

lemma validateField_None_iff:
  "validateField (lit ''name'') v = None \<longleftrightarrow> trim v \<noteq> [] \<and> 2 \<le> length (trim v)"
  "validateField (lit ''email'') v = None \<longleftrightarrow> trim v \<noteq> [] \<and> local_at_domain_tld v"
  "validateField (lit ''message'') v = None \<longleftrightarrow> trim v \<noteq> [] \<and> 10 \<le> length (trim v)"
  by (auto simp: validateField_name validateField_email validateField_message)

lemma validateField_not_empty: "validateField n v \<noteq> Some []"
  by (simp add: validateField_def lit_def)

lemma truthy_validateField: "truthy (validateField n v) \<longleftrightarrow> validateField n v \<noteq> None"
  using validateField_not_empty [of n v] by (cases "validateField n v") auto

text \<open>
  C1. For each of the fields \<open>name\<close>, \<open>email\<close> and \<open>message\<close> and every value,
  \<open>validateField\<close> applies the two rules of the field in order and returns the message
  of the first rule that fails, or nothing: the trimmed value must be non-empty, and
  then a name must have at least 2 characters after trimming, an email must have the
  form \<open>local@domain.tld\<close>, a message must have at least 10 characters after trimming.
  A value of the form \<open>local@domain.tld\<close> has no white space, exactly one \<open>@\<close> and a
  dot after it.
\<close>

theorem validateField_rules:
  "validateField (lit ''name'') v =
     (if trim v = [] then Some (lit ''Name is required'')
      else if length (trim v) < 2 then Some (lit ''Name must be at least 2 characters'')
      else None) \<and>
   validateField (lit ''email'') v =
     (if trim v = [] then Some (lit ''Email is required'')
      else if \<not> local_at_domain_tld v then Some (lit ''Please enter a valid email address'')
      else None) \<and>
   validateField (lit ''message'') v =
     (if trim v = [] then Some (lit ''Message is required'')
      else if length (trim v) < 10 then Some (lit ''Message must be at least 10 characters'')
      else None) \<and>
   (local_at_domain_tld v \<longrightarrow>
      list_all (\<lambda>c. \<not> isSpace c) v \<and> count_list v 0x40 = 1 \<and>
      (\<exists>before after. v = before @ lit ''@'' @ after \<and> 0x2E \<in> set after))"
  using validateField_name [of v] validateField_email [of v] validateField_message [of v]
    local_at_domain_tld_properties [of v]
  by (intro conjI impI)

theorem validateField_rules_witness:
  "local_at_domain_tld (lit ''a@b.com'') \<and>
   validateField (lit ''email'') (lit ''a@b.com'') = None \<and>
   count_list (lit ''a@b.com'') 0x40 = 1"
proof -
  have "isValidEmail (lit ''a@b.com'')" by code_simp
  then have h: "local_at_domain_tld (lit ''a@b.com'')" by (simp only: isValidEmail_iff)
  have t: "trim (lit ''a@b.com'') \<noteq> []" by code_simp
  show ?thesis
    using h t validateField_rules [of "lit ''a@b.com''"] by simp
qed

text \<open>
  C10. For a field name other than \<open>name\<close>, \<open>email\<close> and \<open>message\<close>, \<open>validateField\<close>
  returns nothing, whatever the value: an unknown field is accepted.
\<close>

theorem validateField_unknown_field:
  "name \<noteq> lit ''name'' \<Longrightarrow> name \<noteq> lit ''email'' \<Longrightarrow> name \<noteq> lit ''message'' \<Longrightarrow>
   validateField name value = None"
  by (simp add: validateField_def)

theorem validateField_unknown_field_witness:
  "lit ''phone'' \<noteq> lit ''name'' \<and> lit ''phone'' \<noteq> lit ''email'' \<and>
   lit ''phone'' \<noteq> lit ''message'' \<and> validateField (lit ''phone'') [] = None"
proof -
  have h: "lit ''phone'' \<noteq> lit ''name''" "lit ''phone'' \<noteq> lit ''email''"
    "lit ''phone'' \<noteq> lit ''message''"
    by (simp_all add: lit_def)
  show ?thesis
    using h validateField_unknown_field [OF h, of "[]"] by simp
qed

section \<open>Validation of the form\<close>

lemma field_all: "(\<forall>f::field. P f) \<longleftrightarrow> P Name \<and> P Email \<and> P Message"
  by (metis field.exhaust)

lemma validateForm_each_keys:
  "validateForm_each fd [Name, Email, Message] Map.empty f =
     (case validateField (field_name f) (fd f) of None \<Rightarrow> None | Some e \<Rightarrow> Some (Some e))"
  by (cases f) (auto simp: Let_def truthy_validateField split: option.splits)

lemma validateForm_errors:
  "errors (snd (validateForm s)) f =
     (case validateField (field_name f) (formData s f) of None \<Rightarrow> None | Some e \<Rightarrow> Some (Some e))"
  by (simp add: validateForm_def Let_def validateForm_each_keys del: validateForm_each.simps)

lemma validateForm_rest: "snd (validateForm s) = s\<lparr>errors := errors (snd (validateForm s))\<rparr>"
  by (simp add: validateForm_def Let_def del: validateForm_each.simps)

lemma validateForm_fst:
  "fst (validateForm s) \<longleftrightarrow> (\<forall>f. validateField (field_name f) (formData s f) = None)"
  unfolding field_all
  by (simp add: validateForm_def Let_def object_keys_def validateForm_each_keys
        del: validateForm_each.simps split: option.splits)

lemma validateForm_fst3:
  "fst (validateForm s) \<longleftrightarrow>
     validateField (lit ''name'') (formData s Name) = None \<and>
     validateField (lit ''email'') (formData s Email) = None \<and>
     validateField (lit ''message'') (formData s Message) = None"
  by (simp add: validateForm_fst field_all)

lemma validateForm_fst_empty:
  "fst (validateForm s) \<longleftrightarrow> errors (snd (validateForm s)) = Map.empty"
proof -
  have "errors (snd (validateForm s)) = Map.empty \<longleftrightarrow>
          (\<forall>f. errors (snd (validateForm s)) f = None)"
    by (auto simp: fun_eq_iff)
  also have "\<dots> \<longleftrightarrow> (\<forall>f. validateField (field_name f) (formData s f) = None)"
    by (simp add: validateForm_errors split: option.splits)
  finally show ?thesis by (simp add: validateForm_fst)
qed

lemma validateForm_touched_irrelevant:
  "fst (validateForm (s\<lparr>touched := t\<rparr>)) = fst (validateForm s)"
  by (simp add: validateForm_fst)

lemma error_of_validateForm:
  "error_of (errors (snd (validateForm s))) f = validateField (field_name f) (formData s f)"
  by (simp add: error_of_def validateForm_errors split: option.splits)

lemma dom_validateForm:
  "dom (errors (snd (validateForm s))) = {f. validateField (field_name f) (formData s f) \<noteq> None}"
  by (auto simp: dom_def validateForm_errors split: option.splits)

lemma example_valid_fields: "validateField (field_name f) (example_valid f) = None"
  by (cases f) (simp_all, code_simp+)

lemma example_blocked_fields:
  "validateField (field_name Name) (example_blocked Name) = Some (lit ''Name is required'')"
  "validateField (field_name Email) (example_blocked Email) = None"
  "validateField (field_name Message) (example_blocked Message) = None"
  by code_simp+

lemma example_valid_ok: "formData s = example_valid \<Longrightarrow> fst (validateForm s)"
  by (simp add: validateForm_fst example_valid_fields)

lemma blocked_invalid: "formData s = example_blocked \<Longrightarrow> \<not> fst (validateForm s)"
  using example_blocked_fields(1) by (simp add: validateForm_fst3)

text \<open>
  C2. For every form record, \<open>validateForm\<close> replaces the error map by exactly the
  fields for which \<open>validateField\<close> returns an error, each with its message, and changes
  nothing else; it returns true exactly when every field passes \<open>validateField\<close>, which
  is when each field passes both of its rules, and which is when the new error map is
  empty.
\<close>

theorem validateForm_exactly_failing:
  "(\<forall>f. errors (snd (validateForm s)) f =
        (case validateField (field_name f) (formData s f) of
           None \<Rightarrow> None | Some e \<Rightarrow> Some (Some e))) \<and>
   dom (errors (snd (validateForm s))) =
     {f. validateField (field_name f) (formData s f) \<noteq> None} \<and>
   snd (validateForm s) = s\<lparr>errors := errors (snd (validateForm s))\<rparr> \<and>
   (fst (validateForm s) \<longleftrightarrow> (\<forall>f. validateField (field_name f) (formData s f) = None)) \<and>
   (fst (validateForm s) \<longleftrightarrow> errors (snd (validateForm s)) = Map.empty) \<and>
   (fst (validateForm s) \<longleftrightarrow>
      trim (formData s Name) \<noteq> [] \<and> 2 \<le> length (trim (formData s Name)) \<and>
      trim (formData s Email) \<noteq> [] \<and> local_at_domain_tld (formData s Email) \<and>
      trim (formData s Message) \<noteq> [] \<and> 10 \<le> length (trim (formData s Message)))"
proof -
  have a: "\<forall>f. errors (snd (validateForm s)) f =
        (case validateField (field_name f) (formData s f) of
           None \<Rightarrow> None | Some e \<Rightarrow> Some (Some e))"
    by (simp add: validateForm_errors)
  have b: "fst (validateForm s) \<longleftrightarrow> (\<forall>f. validateField (field_name f) (formData s f) = None)"
    by (rule validateForm_fst)
  have c: "fst (validateForm s) \<longleftrightarrow> errors (snd (validateForm s)) = Map.empty"
    by (rule validateForm_fst_empty)
  have d: "fst (validateForm s) \<longleftrightarrow>
      trim (formData s Name) \<noteq> [] \<and> 2 \<le> length (trim (formData s Name)) \<and>
      trim (formData s Email) \<noteq> [] \<and> local_at_domain_tld (formData s Email) \<and>
      trim (formData s Message) \<noteq> [] \<and> 10 \<le> length (trim (formData s Message))"
    by (simp add: validateForm_fst3 validateField_None_iff)
  from a dom_validateForm [of s] validateForm_rest [of s] b c d show ?thesis
    by (intro conjI)
qed

theorem validateForm_exactly_failing_witness:
  "fst (validateForm (initial\<lparr>formData := example_valid\<rparr>)) \<and>
   errors (snd (validateForm (initial\<lparr>formData := example_valid\<rparr>))) = Map.empty \<and>
   \<not> fst (validateForm (initial\<lparr>formData := example_blocked\<rparr>)) \<and>
   dom (errors (snd (validateForm (initial\<lparr>formData := example_blocked\<rparr>)))) = {Name}"
proof -
  let ?V = "initial\<lparr>formData := example_valid\<rparr>"
  let ?B = "initial\<lparr>formData := example_blocked\<rparr>"
  note V = validateForm_exactly_failing [of ?V]
  note B = validateForm_exactly_failing [of ?B]
  have v: "\<forall>f. validateField (field_name f) (formData ?V f) = None"
    by (simp add: example_valid_fields)
  have b: "{f. validateField (field_name f) (formData ?B f) \<noteq> None} = {Name}"
  proof -
    have "validateField (field_name f) (example_blocked f) \<noteq> None \<longleftrightarrow> f = Name" for f
      using example_blocked_fields by (cases f) simp_all
    then show ?thesis by simp
  qed
  have n: "\<not> (\<forall>f. validateField (field_name f) (formData ?B f) = None)"
  proof
    assume "\<forall>f. validateField (field_name f) (formData ?B f) = None"
    then have "validateField (field_name Name) (formData ?B Name) = None" by (rule spec)
    then show False using example_blocked_fields(1) by simp
  qed
  have 1: "fst (validateForm ?V)"
    by (rule iffD2 [OF V [THEN conjunct2, THEN conjunct2, THEN conjunct2, THEN conjunct1] v])
  have 2: "errors (snd (validateForm ?V)) = Map.empty"
    by (rule iffD1 [OF V [THEN conjunct2, THEN conjunct2, THEN conjunct2, THEN conjunct2,
          THEN conjunct1] 1])
  have 3: "\<not> fst (validateForm ?B)"
    using n iffD1 [OF B [THEN conjunct2, THEN conjunct2, THEN conjunct2, THEN conjunct1]]
    by (rule contrapos_nn)
  have 4: "dom (errors (snd (validateForm ?B))) = {Name}"
    using B [THEN conjunct2, THEN conjunct1] b by (rule trans)
  from 1 2 3 4 show ?thesis
    by (intro conjI)
qed

section \<open>Submitting the form\<close>

lemma handleSubmit_invalid:
  "\<not> fst (validateForm s) \<Longrightarrow>
   handleSubmit s = s\<lparr>touched := [Name \<mapsto> True, Email \<mapsto> True, Message \<mapsto> True],
                      errors := errors (snd (validateForm s))\<rparr>"
proof -
  assume inv: "\<not> fst (validateForm s)"
  let ?s1 = "s\<lparr>touched := [Name \<mapsto> True, Email \<mapsto> True, Message \<mapsto> True]\<rparr>"
  have e: "errors (snd (validateForm ?s1)) = errors (snd (validateForm s))"
    by (rule ext) (simp add: validateForm_errors)
  have "handleSubmit s = snd (validateForm ?s1)"
    using inv validateForm_touched_irrelevant [where s = s]
    by (simp add: handleSubmit_def Let_def split_beta)
  also have "\<dots> = ?s1\<lparr>errors := errors (snd (validateForm s))\<rparr>"
    using validateForm_rest [of ?s1] e by simp
  finally show ?thesis by simp
qed

lemma handleSubmit_valid:
  "fst (validateForm s) \<Longrightarrow>
   handleSubmit s = s\<lparr>touched := [Name \<mapsto> True, Email \<mapsto> True, Message \<mapsto> True],
                      errors := Map.empty, status := Submitting,
                      timers := timers s @ [(now s + 1500, Settle Fulfilled)]\<rparr>"
proof -
  assume v: "fst (validateForm s)"
  let ?s1 = "s\<lparr>touched := [Name \<mapsto> True, Email \<mapsto> True, Message \<mapsto> True]\<rparr>"
  have v1: "fst (validateForm ?s1)"
    using v by (simp add: validateForm_touched_irrelevant)
  then have e: "errors (snd (validateForm ?s1)) = Map.empty"
    by (simp add: validateForm_fst_empty)
  have r: "snd (validateForm ?s1) = ?s1\<lparr>errors := Map.empty\<rparr>"
    using validateForm_rest [of ?s1] e by simp
  show ?thesis
    using v1 r by (simp add: handleSubmit_def Let_def split_beta)
qed

lemma all_touched: "[Name \<mapsto> True, Email \<mapsto> True, Message \<mapsto> True] f = Some True"
  by (cases f) simp_all

lemma rendered_validateForm:
  "rendered_error (s\<lparr>touched := [Name \<mapsto> True, Email \<mapsto> True, Message \<mapsto> True],
                     errors := errors (snd (validateForm s))\<rparr>) f =
     validateField (field_name f) (formData s f)"
  using all_touched [of f] truthy_validateField [of "field_name f" "formData s f"]
  by (auto simp: rendered_error_def error_of_validateForm simp del: fun_upd_apply)

text \<open>
  C3. When the record fails validation, \<open>handleSubmit\<close> marks the three fields as
  touched, registers no send, leaves the status as it is (so \<open>idle\<close> stays \<open>idle\<close>) and
  leaves the record as it is, and the errors recorded and rendered are those of
  \<open>validateField\<close> on every field. For the record with an empty name, the email
  \<open>a@b.com\<close> and the message \<open>hello there\<close>, a click on the submit button of an idle form
  sends nothing and renders one error, \<open>Name is required\<close> under the name.
\<close>

theorem submit_invalid_blocked:
  "(\<not> fst (validateForm s) \<longrightarrow>
      touched (handleSubmit s) = [Name \<mapsto> True, Email \<mapsto> True, Message \<mapsto> True] \<and>
      timers (handleSubmit s) = timers s \<and>
      in_flight (handleSubmit s) = in_flight s \<and>
      status (handleSubmit s) = status s \<and>
      formData (handleSubmit s) = formData s \<and>
      (\<forall>f. error_of (errors (handleSubmit s)) f =
            validateField (field_name f) (formData s f)) \<and>
      (\<forall>f. rendered_error (handleSubmit s) f =
            validateField (field_name f) (formData s f))) \<and>
   (formData s = example_blocked \<and> status s = Idle \<longrightarrow>
      status (dispatch ClickSubmit s) = Idle \<and>
      timers (dispatch ClickSubmit s) = timers s \<and>
      rendered_error (dispatch ClickSubmit s) Name = Some (lit ''Name is required'') \<and>
      rendered_error (dispatch ClickSubmit s) Email = None \<and>
      rendered_error (dispatch ClickSubmit s) Message = None)"
proof (intro conjI impI)
  assume inv: "\<not> fst (validateForm s)"
  note hs = handleSubmit_invalid [OF inv]
  show "touched (handleSubmit s) = [Name \<mapsto> True, Email \<mapsto> True, Message \<mapsto> True]"
    by (simp add: hs)
  show "timers (handleSubmit s) = timers s" by (simp add: hs)
  show "in_flight (handleSubmit s) = in_flight s" by (simp add: hs in_flight_def)
  show "status (handleSubmit s) = status s" by (simp add: hs)
  show "formData (handleSubmit s) = formData s" by (simp add: hs)
  show "\<forall>f. error_of (errors (handleSubmit s)) f = validateField (field_name f) (formData s f)"
    by (simp add: hs error_of_validateForm)
  show "\<forall>f. rendered_error (handleSubmit s) f = validateField (field_name f) (formData s f)"
    unfolding hs by (simp only: rendered_validateForm simp_thms)
next
  assume a: "formData s = example_blocked \<and> status s = Idle"
  then have inv: "\<not> fst (validateForm s)" by (simp add: blocked_invalid)
  from a have d: "dispatch ClickSubmit s =
      s\<lparr>touched := [Name \<mapsto> True, Email \<mapsto> True, Message \<mapsto> True],
        errors := errors (snd (validateForm s))\<rparr>"
    by (simp add: submit_disabled_def handleSubmit_invalid [OF inv])
  from a show "status (dispatch ClickSubmit s) = Idle" unfolding d by simp
  show "timers (dispatch ClickSubmit s) = timers s" unfolding d by simp
  from a show "rendered_error (dispatch ClickSubmit s) Name = Some (lit ''Name is required'')"
    unfolding d by (simp only: rendered_validateForm example_blocked_fields)
  from a show "rendered_error (dispatch ClickSubmit s) Email = None"
    unfolding d by (simp only: rendered_validateForm example_blocked_fields)
  from a show "rendered_error (dispatch ClickSubmit s) Message = None"
    unfolding d by (simp only: rendered_validateForm example_blocked_fields)
qed

theorem submit_invalid_blocked_witness:
  "\<not> fst (validateForm (initial\<lparr>formData := example_blocked\<rparr>)) \<and>
   formData (initial\<lparr>formData := example_blocked\<rparr>) = example_blocked \<and>
   status (initial\<lparr>formData := example_blocked\<rparr>) = Idle \<and>
   status (handleSubmit (initial\<lparr>formData := example_blocked\<rparr>)) = Idle \<and>
   timers (dispatch ClickSubmit (initial\<lparr>formData := example_blocked\<rparr>)) = [] \<and>
   rendered_error (dispatch ClickSubmit (initial\<lparr>formData := example_blocked\<rparr>)) Name =
     Some (lit ''Name is required'')"
proof -
  let ?B = "initial\<lparr>formData := example_blocked\<rparr>"
  have h: "\<not> fst (validateForm ?B)" by (simp add: blocked_invalid)
  have g: "formData ?B = example_blocked \<and> status ?B = Idle" by (simp add: initial_def)
  have t: "timers ?B = []" and i: "status ?B = Idle" by (simp_all add: initial_def)
  note T = submit_invalid_blocked [of ?B]
  note T1 = T [THEN conjunct1, rule_format, OF h]
  note T2 = T [THEN conjunct2, rule_format, OF g]
  have 1: "status (handleSubmit ?B) = Idle"
    using T1 [THEN conjunct2, THEN conjunct2, THEN conjunct2, THEN conjunct1] i by (rule trans)
  have 2: "timers (dispatch ClickSubmit ?B) = []"
    using T2 [THEN conjunct2, THEN conjunct1] t by (rule trans)
  have f: "formData ?B = example_blocked" by simp
  from h f i 1 2 T2 [THEN conjunct2, THEN conjunct2, THEN conjunct1] show ?thesis
    by (intro conjI)
qed

section \<open>A successful submission\<close>

lemma fun_upd_all: "(g::FormData)(Name := fd Name, Email := fd Email, Message := fd Message) = fd"
proof
  fix f show "(g(Name := fd Name, Email := fd Email, Message := fd Message)) f = fd f"
    by (cases f) simp_all
qed

lemma run_append: "run (es @ es') s = run es' (run es s)"
  by (induction es arbitrary: s) simp_all

lemma run_fill:
  assumes "status s \<noteq> Submitting" and "touched s = Map.empty"
  shows "run (fill fd) s = s\<lparr>formData := fd\<rparr>"
  using assms
  by (simp add: fill_def input_disabled_def handleChange_def Let_def fun_upd_all)

lemma submit_flow:
  assumes v: "fst (validateForm s)" and i: "status s = Idle" and t: "timers s = []"
  shows "dispatch ClickSubmit s =
           s\<lparr>touched := [Name \<mapsto> True, Email \<mapsto> True, Message \<mapsto> True],
             errors := Map.empty, status := Submitting,
             timers := [(now s + 1500, Settle Fulfilled)]\<rparr>"
    and "run [ClickSubmit, Advance 1500, Fire] s =
           s\<lparr>formData := initialFormData, errors := Map.empty, touched := Map.empty,
             status := Success, now := now s + 1500,
             timers := [(now s + 6500, SetStatusIdle)]\<rparr>"
    and "run [ClickSubmit, Advance 1500, Fire, Advance 5000, Fire] s =
           s\<lparr>formData := initialFormData, errors := Map.empty, touched := Map.empty,
             status := Idle, now := now s + 6500, timers := []\<rparr>"
  using v i t by (simp_all add: submit_disabled_def handleSubmit_valid)



text \<open>While the status is \<open>submitting\<close>, the submit button is disabled and a click does nothing.\<close>

lemma click_while_submitting: "status s = Submitting \<Longrightarrow> dispatch ClickSubmit s = s"
  by (simp add: submit_disabled_def)

text \<open>
  C5. The state reached by \<open>double_submit\<close>: a second submission is made while the
  status is \<open>success\<close>, the reset timer of the first success then sets the status to
  \<open>idle\<close> while the second send is pending, the submit button is enabled again, and a
  third click registers another send. Two sends are in flight.
\<close>

theorem double_submit_two_in_flight:
  "run double_submit initial =
     \<lparr>formData = example_valid, errors = Map.empty,
      touched = [Name \<mapsto> True, Email \<mapsto> True, Message \<mapsto> True],
      status = Submitting, now = 6500,
      timers = [(7500, Settle Fulfilled), (8000, Settle Fulfilled)]\<rparr> \<and>
   in_flight (run double_submit initial) = 2"
proof -
  let ?all = "[Name \<mapsto> True, Email \<mapsto> True, Message \<mapsto> True]"
  have 1: "run (fill example_valid) initial = initial\<lparr>formData := example_valid\<rparr>"
    by (rule run_fill) (simp_all add: initial_def)
  have 2: "run [ClickSubmit, Advance 1500, Fire] (initial\<lparr>formData := example_valid\<rparr>) =
      \<lparr>formData = initialFormData, errors = Map.empty, touched = Map.empty,
       status = Success, now = 1500, timers = [(6500, SetStatusIdle)]\<rparr>" (is "_ = ?s2")
    by (subst submit_flow(2)) (simp_all add: example_valid_ok, simp_all add: initial_def)
  have 3: "run (fill example_valid) ?s2 = ?s2\<lparr>formData := example_valid\<rparr>"
    by (rule run_fill) simp_all
  have 4: "run [Advance 4500, ClickSubmit] (?s2\<lparr>formData := example_valid\<rparr>) =
      \<lparr>formData = example_valid, errors = Map.empty, touched = ?all,
       status = Submitting, now = 6000,
       timers = [(6500, SetStatusIdle), (7500, Settle Fulfilled)]\<rparr>" (is "_ = ?s4")
    by (simp add: submit_disabled_def handleSubmit_valid example_valid_ok)
  have 5: "run [Advance 500, Fire] ?s4 =
      \<lparr>formData = example_valid, errors = Map.empty, touched = ?all,
       status = Idle, now = 6500, timers = [(7500, Settle Fulfilled)]\<rparr>" (is "_ = ?s5")
    by simp
  have 6: "run [ClickSubmit] ?s5 =
      \<lparr>formData = example_valid, errors = Map.empty, touched = ?all,
       status = Submitting, now = 6500,
       timers = [(7500, Settle Fulfilled), (8000, Settle Fulfilled)]\<rparr>" (is "_ = ?s6")
    by (simp add: submit_disabled_def handleSubmit_valid example_valid_ok)
  have ds: "double_submit = fill example_valid @ [ClickSubmit, Advance 1500, Fire] @
      fill example_valid @ [Advance 4500, ClickSubmit] @ [Advance 500, Fire] @ [ClickSubmit]"
    by (simp add: double_submit_def)
  have r: "run double_submit initial = ?s6"
    apply (subst ds)
    apply (simp only: run_append 1 2 3 4 5 6)
    done
  show ?thesis
    unfolding r by (simp add: in_flight_def)
qed

section \<open>The send never fails\<close>

lemma earliest_in: "earliest ts = Some t \<Longrightarrow> t \<in> set ts"
  by (induction ts arbitrary: t) (auto split: option.splits if_splits)

lemma no_reject_handleSubmit: "no_reject s \<Longrightarrow> no_reject (handleSubmit s)"
  by (cases "fst (validateForm s)")
     (simp_all add: handleSubmit_valid handleSubmit_invalid no_reject_def)

lemma no_reject_run_callback:
  assumes "no_reject s" and "t \<in> set (timers s)"
  shows "no_reject (run_callback (snd t) (s\<lparr>timers := remove1 t (timers s)\<rparr>))"
proof -
  from assms have all: "list_all (\<lambda>t. snd t \<noteq> Settle Rejected) (remove1 t (timers s))"
    by (auto simp: no_reject_def list_all_iff dest: notin_set_remove1)
  from assms have "snd t \<noteq> Settle Rejected"
    by (auto simp: no_reject_def list_all_iff)
  then consider "snd t = Settle Fulfilled" | "snd t = SetStatusIdle"
    by (cases "snd t" rule: callback.exhaust) (auto intro: outcome.exhaust)
  then show ?thesis
    using all by cases (simp_all add: no_reject_def)
qed

lemma no_reject_dispatch: "no_reject s \<Longrightarrow> no_reject (dispatch e s)"
proof (cases e)
  case (Change f v)
  assume "no_reject s"
  then show ?thesis
    by (simp add: Change no_reject_def handleChange_def Let_def)
next
  case (Blur f v)
  assume "no_reject s"
  then show ?thesis
    by (simp add: Blur no_reject_def handleBlur_def Let_def)
next
  case ClickSubmit
  assume "no_reject s"
  then show ?thesis
    by (simp add: ClickSubmit no_reject_handleSubmit)
next
  case (Advance d)
  assume "no_reject s"
  then show ?thesis
    by (simp add: Advance no_reject_def)
next
  case Fire
  assume nr: "no_reject s"
  show ?thesis
  proof (cases "earliest (timers s)")
    case None
    with nr show ?thesis by (simp add: Fire)
  next
    case (Some t)
    then have "t \<in> set (timers s)" by (rule earliest_in)
    with nr have "no_reject (run_callback (snd t) (s\<lparr>timers := remove1 t (timers s)\<rparr>))"
      by (rule no_reject_run_callback)
    with nr show ?thesis by (simp add: Fire Some)
  qed
qed

lemma no_reject_run: "no_reject s \<Longrightarrow> no_reject (run es s)"
  by (induction es arbitrary: s) (simp_all add: no_reject_dispatch)

lemma no_reject_initial: "no_reject initial"
  by (simp add: no_reject_def initial_def)

text \<open>
  C9. The promise that \<open>handleSubmit\<close> awaits is settled by a timer whose callback is
  its \<open>resolve\<close> function, so it is never rejected: in every state that the form
  reaches from its initial state, whatever the events, the status is not \<open>error\<close> and no
  rejection is pending. The \<open>catch\<close> block of \<open>handleSubmit\<close> never runs.
\<close>

theorem send_never_fails:
  "status (run es initial) \<noteq> Error \<and>
   (\<forall>d. (d, Settle Rejected) \<notin> set (timers (run es initial)))"
proof -
  have "no_reject (run es initial)"
    using no_reject_initial by (rule no_reject_run)
  then show ?thesis
    by (auto simp: no_reject_def list_all_iff)
qed

theorem send_never_fails_witness:
  "status (run [ClickSubmit, Advance 1500, Fire] (run (fill example_valid) initial)) = Success \<and>
   status (run (fill example_valid @ [ClickSubmit, Advance 1500, Fire]) initial) \<noteq> Error \<and>
   (7500, Settle Rejected) \<notin>
     set (timers (run (fill example_valid @ [ClickSubmit, Advance 1500, Fire]) initial))"
proof -
  have f: "run (fill example_valid) initial = initial\<lparr>formData := example_valid\<rparr>"
    by (rule run_fill) (simp_all add: initial_def)
  have 1: "status (run [ClickSubmit, Advance 1500, Fire] (run (fill example_valid) initial)) =
      Success"
    unfolding f
    by (subst submit_flow(2)) (simp_all add: example_valid_ok, simp_all add: initial_def)
  note T = send_never_fails [of "fill example_valid @ [ClickSubmit, Advance 1500, Fire]"]
  from 1 T [THEN conjunct1] T [THEN conjunct2, THEN spec, of 7500] show ?thesis
    by (intro conjI)
qed

section \<open>Errors are shown for touched fields only\<close>

lemma sot_handleSubmit: "shown_only_touched s \<Longrightarrow> shown_only_touched (handleSubmit s)"
  by (cases "fst (validateForm s)")
     (simp_all add: handleSubmit_valid handleSubmit_invalid shown_only_touched_def
        field_all error_of_def)

lemma sot_run_callback:
  "shown_only_touched s \<Longrightarrow> shown_only_touched (run_callback c (s\<lparr>timers := ts\<rparr>))"
proof (cases c)
  case (Settle r)
  assume "shown_only_touched s"
  then show ?thesis
    by (cases r) (simp_all add: Settle shown_only_touched_def error_of_def)
next
  case SetStatusIdle
  assume "shown_only_touched s"
  then show ?thesis
    by (simp add: SetStatusIdle shown_only_touched_def)
qed

lemma sot_dispatch: "shown_only_touched s \<Longrightarrow> shown_only_touched (dispatch e s)"
proof (cases e)
  case (Change f v)
  assume "shown_only_touched s"
  then show ?thesis
    by (auto simp: Change shown_only_touched_def handleChange_def Let_def error_of_def)
next
  case (Blur f v)
  assume "shown_only_touched s"
  then show ?thesis
    by (auto simp: Blur shown_only_touched_def handleBlur_def Let_def error_of_def)
next
  case ClickSubmit
  assume "shown_only_touched s"
  then show ?thesis
    by (simp add: ClickSubmit sot_handleSubmit)
next
  case (Advance d)
  assume "shown_only_touched s"
  then show ?thesis
    by (simp add: Advance shown_only_touched_def)
next
  case Fire
  assume "shown_only_touched s"
  then show ?thesis
    by (simp add: Fire sot_run_callback split: option.splits)
qed

lemma sot_run: "shown_only_touched s \<Longrightarrow> shown_only_touched (run es s)"
  by (induction es arbitrary: s) (simp_all add: sot_dispatch)

lemma sot_initial: "shown_only_touched initial"
  by (simp add: shown_only_touched_def initial_def error_of_def)

text \<open>
  C8. In every state that the form reaches from its initial state, the error text
  rendered for a field, if any, is the error recorded for that field, and the field is
  marked touched. Moreover every field with a recorded error is marked touched in such
  a state.
\<close>

theorem error_shown_only_if_touched:
  "(rendered_error (run es initial) f = Some e \<longrightarrow>
      touched (run es initial) f = Some True \<and>
      error_of (errors (run es initial)) f = Some e) \<and>
   (truthy (error_of (errors (run es initial)) f) \<longrightarrow>
      touched (run es initial) f = Some True)"
proof -
  have "shown_only_touched (run es initial)"
    using sot_initial by (rule sot_run)
  then show ?thesis
    by (simp add: shown_only_touched_def rendered_error_def)
qed

theorem error_shown_only_if_touched_witness:
  "rendered_error (run [Blur Name []] initial) Name = Some (lit ''Name is required'') \<and>
   touched (run [Blur Name []] initial) Name = Some True \<and>
   error_of (errors (run [Blur Name []] initial)) Name = Some (lit ''Name is required'')"
proof -
  have h: "rendered_error (run [Blur Name []] initial) Name = Some (lit ''Name is required'')"
    by code_simp
  note T = error_shown_only_if_touched [of "[Blur Name []]" Name "lit ''Name is required''"]
  note C = T [THEN conjunct1, rule_format, OF h]
  from h C [THEN conjunct1] C [THEN conjunct2] show ?thesis
    by (intro conjI)
qed

section \<open>Theme: initialisation and changes of the environment\<close>

lemma storage_toggleTheme: "truthy (storage (toggleTheme s))"
  by (simp add: toggleTheme_def Let_def lit_def)

lemma storage_toggleTheme_theme: "storage (toggleTheme s) = Some (theme (toggleTheme s))"
  by (simp add: toggleTheme_def Let_def)

lemma handleChange_media_absent:
  "\<not> truthy (storage s) \<Longrightarrow>
   handleChange_media m s =
     s\<lparr>theme := systemTheme m, data_theme := Some (systemTheme m),
       effects := effects s @ [GetItem, SetAttribute (systemTheme m)]\<rparr>"
  by (simp add: handleChange_media_def setTheme_setAttribute_def)

lemma handleChange_media_present:
  "truthy (storage s) \<Longrightarrow> handleChange_media m s = s\<lparr>effects := effects s @ [GetItem]\<rparr>"
  by (simp add: handleChange_media_def)

lemma storage_theme_dispatch: "truthy (storage s) \<Longrightarrow> truthy (storage (theme_dispatch e s))"
  by (cases e) (simp_all add: storage_toggleTheme handleChange_media_present)

lemma storage_theme_run: "truthy (storage s) \<Longrightarrow> truthy (storage (theme_run es s))"
  by (induction es arbitrary: s) (simp_all add: storage_theme_dispatch)

lemma initialize_present:
  "storage s = Some t \<Longrightarrow> t \<noteq> [] \<Longrightarrow>
   initialize s = s\<lparr>mounted := True, theme := t, data_theme := Some t,
                    effects := effects s @ [GetItem, SetAttribute t]\<rparr>"
  by (simp add: initialize_def Let_def setTheme_setAttribute_def)

lemma initialize_absent:
  "storage s = None \<Longrightarrow>
   initialize s = s\<lparr>mounted := True, theme := systemTheme (prefersDark s),
                    data_theme := Some (systemTheme (prefersDark s)),
                    effects := effects s @ [GetItem, QueryMatches,
                      SetAttribute (systemTheme (prefersDark s))]\<rparr>"
  by (simp add: initialize_def Let_def setTheme_setAttribute_def)

lemma initialize_storage: "storage (initialize s) = storage s"
  by (simp add: initialize_def Let_def setTheme_setAttribute_def split: option.splits)

lemma dark_ne_light: "lit ''dark'' \<noteq> lit ''light''"
  by (simp add: lit_def)

text \<open>
  C6. \<open>initialize\<close> reads the stored item once. If a theme is stored (a non-empty
  string, as \<open>light\<close> and \<open>dark\<close> are), it becomes the theme and the attribute, and the
  media query is not asked. If nothing is stored, the media query is asked once and
  the theme and the attribute become \<open>dark\<close> when the environment prefers dark and
  \<open>light\<close> when it does not. In both cases the stored item is left as it is and
  nothing is written to it. After \<open>toggleTheme\<close>, a page load takes the stored theme,
  without asking the media query.
\<close>

theorem initialize_persisted_first:
  "(\<forall>t. storage s = Some t \<and> t \<noteq> [] \<longrightarrow>
      theme (initialize s) = t \<and> data_theme (initialize s) = Some t \<and>
      effects (initialize s) = effects s @ [GetItem, SetAttribute t]) \<and>
   (storage s = None \<longrightarrow>
      theme (initialize s) = (if prefersDark s then lit ''dark'' else lit ''light'') \<and>
      data_theme (initialize s) =
        Some (if prefersDark s then lit ''dark'' else lit ''light'') \<and>
      effects (initialize s) =
        effects s @ [GetItem, QueryMatches,
          SetAttribute (if prefersDark s then lit ''dark'' else lit ''light'')]) \<and>
   storage (initialize s) = storage s \<and>
   count_list (effects (initialize s)) GetItem = Suc (count_list (effects s) GetItem) \<and>
   count_list (effects (initialize s)) (SetItem x) = count_list (effects s) (SetItem x) \<and>
   theme (initialize (fresh (toggleTheme s))) = theme (toggleTheme s) \<and>
   data_theme (initialize (fresh (toggleTheme s))) = Some (theme (toggleTheme s)) \<and>
   effects (initialize (fresh (toggleTheme s))) = [GetItem, SetAttribute (theme (toggleTheme s))]"
proof -
  have t: "storage (fresh (toggleTheme s)) = Some (theme (toggleTheme s))"
    by (simp add: fresh_def storage_toggleTheme_theme)
  have n: "theme (toggleTheme s) \<noteq> []"
    using storage_toggleTheme [of s] by (simp add: storage_toggleTheme_theme)
  have c: "count_list (effects (initialize s)) GetItem = Suc (count_list (effects s) GetItem)"
    by (simp add: initialize_def Let_def setTheme_setAttribute_def split: option.splits)
  have w: "count_list (effects (initialize s)) (SetItem x) = count_list (effects s) (SetItem x)"
    by (simp add: initialize_def Let_def setTheme_setAttribute_def split: option.splits)
  show ?thesis
    using initialize_present [OF t n] c w
    by (simp add: initialize_present initialize_absent initialize_storage fresh_def
          systemTheme_def)
qed

theorem initialize_persisted_first_witness:
  "storage \<lparr>theme = lit ''light'', mounted = False, storage = Some (lit ''dark''),
      data_theme = None, prefersDark = False, effects = []\<rparr> = Some (lit ''dark'') \<and>
   lit ''dark'' \<noteq> [] \<and>
   theme (initialize \<lparr>theme = lit ''light'', mounted = False, storage = Some (lit ''dark''),
      data_theme = None, prefersDark = False, effects = []\<rparr>) = lit ''dark'' \<and>
   effects (initialize \<lparr>theme = lit ''light'', mounted = False, storage = Some (lit ''dark''),
      data_theme = None, prefersDark = False, effects = []\<rparr>) =
     [GetItem, SetAttribute (lit ''dark'')] \<and>
   lit ''dark'' \<noteq> lit ''light'' \<and>
   theme (initialize \<lparr>theme = lit ''light'', mounted = False, storage = None,
      data_theme = None, prefersDark = True, effects = []\<rparr>) = lit ''dark'' \<and>
   data_theme (initialize \<lparr>theme = lit ''light'', mounted = False, storage = None,
      data_theme = None, prefersDark = True, effects = []\<rparr>) = Some (lit ''dark'') \<and>
   effects (initialize \<lparr>theme = lit ''light'', mounted = False, storage = None,
      data_theme = None, prefersDark = True, effects = []\<rparr>) =
     [GetItem, QueryMatches, SetAttribute (lit ''dark'')] \<and>
   theme (initialize \<lparr>theme = lit ''light'', mounted = False, storage = None,
      data_theme = None, prefersDark = False, effects = []\<rparr>) = lit ''light'' \<and>
   data_theme (initialize \<lparr>theme = lit ''light'', mounted = False, storage = None,
      data_theme = None, prefersDark = False, effects = []\<rparr>) = Some (lit ''light'') \<and>
   effects (initialize \<lparr>theme = lit ''light'', mounted = False, storage = None,
      data_theme = None, prefersDark = False, effects = []\<rparr>) =
     [GetItem, QueryMatches, SetAttribute (lit ''light'')]"
proof -
  let ?s = "\<lparr>theme = lit ''light'', mounted = False, storage = Some (lit ''dark''),
      data_theme = None, prefersDark = False, effects = []\<rparr>"
  let ?d = "\<lparr>theme = lit ''light'', mounted = False, storage = None,
      data_theme = None, prefersDark = True, effects = []\<rparr>"
  let ?l = "\<lparr>theme = lit ''light'', mounted = False, storage = None,
      data_theme = None, prefersDark = False, effects = []\<rparr>"
  have a: "storage ?s = Some (lit ''dark'')" by simp
  have b: "lit ''dark'' \<noteq> []" by (simp add: lit_def)
  note T = initialize_persisted_first [of ?s, THEN conjunct1, THEN spec, of "lit ''dark''",
    THEN mp, OF conjI [OF a b]]
  have c: "effects (initialize ?s) = [GetItem, SetAttribute (lit ''dark'')]"
    using T [THEN conjunct2, THEN conjunct2] by simp
  have nd: "storage ?d = None" and nl: "storage ?l = None" by simp_all
  note D = initialize_persisted_first [of ?d, THEN conjunct2, THEN conjunct1, THEN mp, OF nd]
  note L = initialize_persisted_first [of ?l, THEN conjunct2, THEN conjunct1, THEN mp, OF nl]
  have d1: "theme (initialize ?d) = lit ''dark''"
    using D [THEN conjunct1] by simp
  have d2: "data_theme (initialize ?d) = Some (lit ''dark'')"
    using D [THEN conjunct2, THEN conjunct1] by simp
  have d3: "effects (initialize ?d) = [GetItem, QueryMatches, SetAttribute (lit ''dark'')]"
    using D [THEN conjunct2, THEN conjunct2] by simp
  have l1: "theme (initialize ?l) = lit ''light''"
    using L [THEN conjunct1] by simp
  have l2: "data_theme (initialize ?l) = Some (lit ''light'')"
    using L [THEN conjunct2, THEN conjunct1] by simp
  have l3: "effects (initialize ?l) = [GetItem, QueryMatches, SetAttribute (lit ''light'')]"
    using L [THEN conjunct2, THEN conjunct2] by simp
  from a b T [THEN conjunct1] c dark_ne_light d1 d2 d3 l1 l2 l3 show ?thesis
    by (intro conjI)
qed

text \<open>
  C7. The listener for changes of the environment adopts and applies the theme of the
  new environment signal when no theme is stored, and only then: the theme and the
  attribute become \<open>dark\<close> when the signal is on and \<open>light\<close> when it is off. When a
  theme is stored (a non-empty string) it changes neither the theme nor the
  attribute. It never writes the stored item. After \<open>toggleTheme\<close>, whatever events
  follow, a change of the environment changes neither the theme nor the attribute.
\<close>

theorem handleChange_media_only_without_preference:
  "(\<not> truthy (storage s) \<longrightarrow>
      theme (handleChange_media m s) = (if m then lit ''dark'' else lit ''light'') \<and>
      data_theme (handleChange_media m s) = Some (if m then lit ''dark'' else lit ''light'') \<and>
      effects (handleChange_media m s) =
        effects s @ [GetItem, SetAttribute (if m then lit ''dark'' else lit ''light'')]) \<and>
   (truthy (storage s) \<longrightarrow>
      theme (handleChange_media m s) = theme s \<and>
      data_theme (handleChange_media m s) = data_theme s \<and>
      effects (handleChange_media m s) = effects s @ [GetItem]) \<and>
   storage (handleChange_media m s) = storage s \<and>
   theme (theme_dispatch (EnvChange m) (theme_run es (toggleTheme s))) =
     theme (theme_run es (toggleTheme s)) \<and>
   data_theme (theme_dispatch (EnvChange m) (theme_run es (toggleTheme s))) =
     data_theme (theme_run es (toggleTheme s)) \<and>
   storage (theme_dispatch (EnvChange m) (theme_run es (toggleTheme s))) =
     storage (theme_run es (toggleTheme s))"
proof -
  have "truthy (storage (theme_run es (toggleTheme s)))"
    by (simp add: storage_theme_run storage_toggleTheme)
  then show ?thesis
    by (cases "truthy (storage s)")
       (simp_all add: handleChange_media_present handleChange_media_absent systemTheme_def)
qed

theorem handleChange_media_only_without_preference_witness:
  "\<not> truthy (storage \<lparr>theme = lit ''light'', mounted = True, storage = None,
      data_theme = Some (lit ''light''), prefersDark = False, effects = []\<rparr>) \<and>
   theme (handleChange_media True \<lparr>theme = lit ''light'', mounted = True, storage = None,
      data_theme = Some (lit ''light''), prefersDark = False, effects = []\<rparr>) = lit ''dark'' \<and>
   truthy (storage (toggleTheme \<lparr>theme = lit ''light'', mounted = True, storage = None,
      data_theme = Some (lit ''light''), prefersDark = False, effects = []\<rparr>)) \<and>
   theme (theme_dispatch (EnvChange False) (theme_run [EnvChange True]
     (toggleTheme \<lparr>theme = lit ''light'', mounted = True, storage = None,
        data_theme = Some (lit ''light''), prefersDark = False, effects = []\<rparr>))) = lit ''dark'' \<and>
   lit ''dark'' \<noteq> lit ''light'' \<and>
   data_theme (handleChange_media True \<lparr>theme = lit ''light'', mounted = True, storage = None,
      data_theme = Some (lit ''light''), prefersDark = False, effects = []\<rparr>) =
     Some (lit ''dark'') \<and>
   \<not> truthy (storage \<lparr>theme = lit ''dark'', mounted = True, storage = None,
      data_theme = Some (lit ''dark''), prefersDark = True, effects = []\<rparr>) \<and>
   theme (handleChange_media False \<lparr>theme = lit ''dark'', mounted = True, storage = None,
      data_theme = Some (lit ''dark''), prefersDark = True, effects = []\<rparr>) = lit ''light'' \<and>
   data_theme (handleChange_media False \<lparr>theme = lit ''dark'', mounted = True, storage = None,
      data_theme = Some (lit ''dark''), prefersDark = True, effects = []\<rparr>) =
     Some (lit ''light'') \<and>
   effects (handleChange_media False \<lparr>theme = lit ''dark'', mounted = True, storage = None,
      data_theme = Some (lit ''dark''), prefersDark = True, effects = []\<rparr>) =
     [GetItem, SetAttribute (lit ''light'')]"
proof -
  let ?s = "\<lparr>theme = lit ''light'', mounted = True, storage = None,
      data_theme = Some (lit ''light''), prefersDark = False, effects = []\<rparr>"
  let ?d = "\<lparr>theme = lit ''dark'', mounted = True, storage = None,
      data_theme = Some (lit ''dark''), prefersDark = True, effects = []\<rparr>"
  have a: "\<not> truthy (storage ?s)" by simp
  have b: "\<not> truthy (storage ?d)" by simp
  note T = handleChange_media_only_without_preference [of ?s True "[]"]
  note U = handleChange_media_only_without_preference [of ?s False "[EnvChange True]"]
  note D = handleChange_media_only_without_preference [of ?d False "[]", THEN conjunct1,
    rule_format, OF b]
  have 1: "theme (handleChange_media True ?s) = lit ''dark''"
    using T [THEN conjunct1, rule_format, OF a, THEN conjunct1] by simp
  have 2: "truthy (storage (toggleTheme ?s))" by (rule storage_toggleTheme)
  have v: "theme (theme_run [EnvChange True] (toggleTheme ?s)) = lit ''dark''"
    by code_simp
  have 3: "theme (theme_dispatch (EnvChange False) (theme_run [EnvChange True] (toggleTheme ?s))) =
      lit ''dark''"
    using U [THEN conjunct2, THEN conjunct2, THEN conjunct2, THEN conjunct1] v by (rule trans)
  have 4: "data_theme (handleChange_media True ?s) = Some (lit ''dark'')"
    using T [THEN conjunct1, rule_format, OF a, THEN conjunct2, THEN conjunct1] by simp
  have 5: "theme (handleChange_media False ?d) = lit ''light''"
    using D [THEN conjunct1] by simp
  have 6: "data_theme (handleChange_media False ?d) = Some (lit ''light'')"
    using D [THEN conjunct2, THEN conjunct1] by simp
  have 7: "effects (handleChange_media False ?d) = [GetItem, SetAttribute (lit ''light'')]"
    using D [THEN conjunct2, THEN conjunct2] by simp
  from a 1 2 3 dark_ne_light 4 b 5 6 7 show ?thesis
    by (intro conjI)
qed

end
